theory Spec2Isabelle
  imports Main
begin

section \<open>Style dictionaries and the CSS class generator\<close>

text \<open>
  The development covers \<^verbatim>\<open>04_style_dictionaries.py\<close> (\<^verbatim>\<open>dict_to_style\<close>,
  \<^verbatim>\<open>merge_styles\<close>) and \<^verbatim>\<open>06_css_class_generator.py\<close> (class \<^verbatim>\<open>CSSGenerator\<close>).

  A Python \<^verbatim>\<open>dict\<close> keeps its keys in insertion order and holds each key once, so it
  is an association list whose order is the insertion order. Keys and values of a
  style dictionary are strings.
\<close>

subsection \<open>Python primitives used by the sources\<close>

type_synonym ('k, 'v) py_dict = "('k \<times> 'v) list"

type_synonym style_dict = "(string, string) py_dict"

text \<open>A dictionary is well formed when no key occurs twice.\<close>

definition wf_dict :: "('k, 'v) py_dict \<Rightarrow> bool" where
  "wf_dict d = distinct (map fst d)"

text \<open>
  \<^verbatim>\<open>d[k] = v\<close>: an existing key keeps its position and gets the new value, a new key
  goes to the end.
\<close>

fun dict_setitem :: "('k, 'v) py_dict \<Rightarrow> 'k \<Rightarrow> 'v \<Rightarrow> ('k, 'v) py_dict" where
  "dict_setitem [] k v = [(k, v)]"
| "dict_setitem ((k', v') # d) k v =
     (if k' = k then (k, v) # d else (k', v') # dict_setitem d k v)"

text \<open>\<^verbatim>\<open>d.update(e)\<close>: the items of \<^verbatim>\<open>e\<close> are stored into \<^verbatim>\<open>d\<close> one by one, in order.\<close>

fun dict_update :: "('k, 'v) py_dict \<Rightarrow> ('k, 'v) py_dict \<Rightarrow> ('k, 'v) py_dict" where
  "dict_update d [] = d"
| "dict_update d ((k, v) # e) = dict_update (dict_setitem d k v) e"

text \<open>\<^verbatim>\<open>sep.join(xs)\<close> on strings.\<close>

fun str_join :: "string \<Rightarrow> string list \<Rightarrow> string" where
  "str_join sep [] = ''''"
| "str_join sep [x] = x"
| "str_join sep (x # y # ys) = x @ sep @ str_join sep (y # ys)"

subsection \<open>\<^verbatim>\<open>04_style_dictionaries.py\<close>\<close>

text \<open>
  \<^verbatim>\<open>
  def dict_to_style(style_dict):
      return "; ".join(f"{key}: {value}" for key, value in style_dict.items()) + ";"
  \<close>
\<close>

definition dict_to_style :: "style_dict \<Rightarrow> string" where
  "dict_to_style style_dict =
     str_join ''; '' (map (\<lambda>(key, value). key @ '': '' @ value) style_dict) @ '';''"

text \<open>
  \<^verbatim>\<open>
  def merge_styles(*style_dicts):
      result = {}
      for d in style_dicts:
          result.update(d)
      return result
  \<close>
  The loop over the arguments, with \<^verbatim>\<open>result\<close> as the accumulator.
\<close>

fun merge_loop :: "('k, 'v) py_dict \<Rightarrow> ('k, 'v) py_dict list \<Rightarrow> ('k, 'v) py_dict" where
  "merge_loop result [] = result"
| "merge_loop result (d # style_dicts) = merge_loop (dict_update result d) style_dicts"

definition merge_styles :: "('k, 'v) py_dict list \<Rightarrow> ('k, 'v) py_dict" where
  "merge_styles style_dicts = merge_loop [] style_dicts"


subsection \<open>Objects and references\<close>

text \<open>
  Python passes dictionaries and class instances by reference. Where a property is about
  which object is returned or changed, the objects live in a heap: a reference is an
  address, \<open>objs\<close> gives the value stored at each address and the addresses below
  \<open>next_ref\<close> are the ones in use. Creating an object takes the address \<open>next_ref\<close>.
\<close>

type_synonym ref = nat

record 'a heap =
  objs :: "ref \<Rightarrow> 'a"
  next_ref :: ref

definition alloc :: "'a \<Rightarrow> 'a heap \<Rightarrow> ref \<times> 'a heap" where
  "alloc v h = (next_ref h, \<lparr>objs = (objs h)(next_ref h := v), next_ref = Suc (next_ref h)\<rparr>)"

definition empty_heap :: "'a \<Rightarrow> 'a heap" where
  "empty_heap v = \<lparr>objs = (\<lambda>_. v), next_ref = 0\<rparr>"

text \<open>
  \<^verbatim>\<open>merge_styles\<close> on references: \<^verbatim>\<open>result = {}\<close> creates a dictionary object, each
  \<^verbatim>\<open>result.update(d)\<close> reads the object \<^verbatim>\<open>d\<close> and writes the object \<^verbatim>\<open>result\<close>, and
  the reference \<^verbatim>\<open>result\<close> is returned.
\<close>

fun merge_loop_ref :: "ref \<Rightarrow> ref list \<Rightarrow> ('k, 'v) py_dict heap \<Rightarrow> ('k, 'v) py_dict heap" where
  "merge_loop_ref result [] h = h"
| "merge_loop_ref result (d # style_dicts) h =
     merge_loop_ref result style_dicts
       (h\<lparr>objs := (objs h)(result := dict_update (objs h result) (objs h d))\<rparr>)"

definition merge_styles_ref ::
  "ref list \<Rightarrow> ('k, 'v) py_dict heap \<Rightarrow> ref \<times> ('k, 'v) py_dict heap" where
  "merge_styles_ref style_dicts h =
     (case alloc [] h of (result, h0) \<Rightarrow> (result, merge_loop_ref result style_dicts h0))"

subsection \<open>\<^verbatim>\<open>06_css_class_generator.py\<close>\<close>

text \<open>
  The error kinds the specification names, none of which the sources raise, and Python's
  \<^verbatim>\<open>TypeError\<close>, which a call raises when its arguments do not fit the signature.
\<close>

datatype error = InvalidNodeError | StructureError | InvalidClassNameError | TypeError

text \<open>
  \<^verbatim>\<open>
  class CSSGenerator:
      def __init__(self):
          self.classes = {}
  \<close>
\<close>

record css_generator =
  classes :: "(string, style_dict) py_dict"

definition CSSGenerator :: "css_generator heap \<Rightarrow> ref \<times> css_generator heap" where
  "CSSGenerator h = alloc \<lparr>classes = []\<rparr> h"

text \<open>
  The heap right after \<^verbatim>\<open>css_gen = CSSGenerator()\<close> in an empty heap: one generator, at
  address 0, with no class registered.
\<close>

definition fresh_generator_heap :: "css_generator heap" where
  "fresh_generator_heap = snd (CSSGenerator (empty_heap \<lparr>classes = []\<rparr>))"

text \<open>
  \<^verbatim>\<open>
      def add_class(self, name, **styles):
          self.classes[name] = styles
          return self
  \<close>
  \<open>self\<close> is the address of the receiver and \<open>styles\<close> the keyword arguments of the
  call, in order. Python binds keywords to parameters by name before the body runs: a
  keyword called \<^verbatim>\<open>self\<close> or \<^verbatim>\<open>name\<close> meets the positional parameter of that name, and
  the call raises \<^verbatim>\<open>TypeError\<close> (multiple values for the argument). Every other keyword goes
  into the dictionary \<^verbatim>\<open>styles\<close>. The body has no \<^verbatim>\<open>raise\<close>: it stores and returns the
  receiver.
\<close>

definition styles_bind :: "style_dict \<Rightarrow> bool" where
  "styles_bind styles =
     (''self'' \<notin> set (map fst styles) \<and> ''name'' \<notin> set (map fst styles))"

definition add_class ::
  "ref \<Rightarrow> string \<Rightarrow> style_dict \<Rightarrow> css_generator heap \<Rightarrow> error + (ref \<times> css_generator heap)" where
  "add_class self name styles h =
     (if styles_bind styles
      then Inr (self, h\<lparr>objs := (objs h)(self :=
             (objs h self)\<lparr>classes := dict_setitem (classes (objs h self)) name styles\<rparr>)\<rparr>)
      else Inl TypeError)"

text \<open>
  \<^verbatim>\<open>
      def to_css(self):
          css_lines = []
          for class_name, styles in self.classes.items():
              style_str = "; ".join(f"{k}: {v}" for k, v in styles.items())
              css_lines.append(f".{class_name} {{ {style_str}; }}")
          return "\n".join(css_lines)
  \<close>
\<close>

fun to_css_loop :: "string list \<Rightarrow> (string, style_dict) py_dict \<Rightarrow> string list" where
  "to_css_loop css_lines [] = css_lines"
| "to_css_loop css_lines ((class_name, styles) # items) =
     (let style_str = str_join ''; '' (map (\<lambda>(k, v). k @ '': '' @ v) styles)
      in to_css_loop (css_lines @ [''.'' @ class_name @ '' { '' @ style_str @ ''; }'']) items)"

definition to_css :: "ref \<Rightarrow> css_generator heap \<Rightarrow> string" where
  "to_css self h = str_join [CHR 0x0A] (to_css_loop [] (classes (objs h self)))"

text \<open>
  Method chaining, \<^verbatim>\<open>g.add_class(n1, **d1).add_class(n2, **d2)...\<close>: each call is made on
  the reference the call before it returned.
\<close>

fun add_class_chain ::
  "ref \<Rightarrow> (string \<times> style_dict) list \<Rightarrow> css_generator heap \<Rightarrow> error + (ref \<times> css_generator heap)" where
  "add_class_chain r [] h = Inr (r, h)"
| "add_class_chain r ((name, styles) # calls) h =
     (case add_class r name styles h of
        Inl e \<Rightarrow> Inl e
      | Inr (r', h') \<Rightarrow> add_class_chain r' calls h')"

subsection \<open>The specification's wording\<close>

text \<open>
  The inline form the specification describes: every property as \<^verbatim>\<open>prop: value;\<close>, the
  semicolon after each one, consecutive properties separated by one space.
\<close>

definition inline_shape :: "style_dict \<Rightarrow> string" where
  "inline_shape d = str_join '' '' (map (\<lambda>(prop, val). prop @ '': '' @ val @ '';'') d)"

text \<open>
  A stylesheet block for one rule set: \<^verbatim>\<open>.name { \<close>, the body, \<^verbatim>\<open> }\<close>.
\<close>

definition css_block :: "string \<Rightarrow> string \<Rightarrow> string" where
  "css_block name body = ''.'' @ name @ '' { '' @ body @ '' }''"

text \<open>
  The stylesheet the specification describes: the blocks of the rule sets, in order,
  separated by newlines, the body of a block being the inline form of its properties.
\<close>

definition stylesheet_shape :: "(string, style_dict) py_dict \<Rightarrow> string" where
  "stylesheet_shape rules =
     str_join [CHR 0x0A] (map (\<lambda>(name, styles). css_block name (inline_shape styles)) rules)"

text \<open>
  The keys of a sequence of dictionaries in argument order, each key at its first
  occurrence.
\<close>

definition first_occurrences :: "'k list \<Rightarrow> 'k list" where
  "first_occurrences ks = rev (remdups (rev ks))"

text \<open>
  The rightmost dictionary of a sequence that contains a key, if there is one.
\<close>

definition rightmost_with :: "'k \<Rightarrow> ('k, 'v) py_dict list \<Rightarrow> ('k, 'v) py_dict option" where
  "rightmost_with k ds = find (\<lambda>d. k \<in> fst ` set d) (rev ds)"

subsection \<open>The element tree builder\<close>

text \<open>
  Modelled from the spec: the element tree builder (\<^verbatim>\<open>makeElement\<close>, \<^verbatim>\<open>serialize\<close>) is
  the component library the scripts import; its code is not among the sources. The
  definitions follow section 4.1 of the specification: a node is an element with a tag,
  ordered attributes and ordered children, a plain text leaf, or raw content.
  Serialization emits the opening tag with the attributes in order, the children in
  order and the closing tag; text leaves and attribute values are escaped, raw content
  is emitted as it is. The specification names the five escaped characters and not their
  replacements; the usual entity references are taken.
\<close>

datatype node = Element string "(string \<times> string) list" "node list" | Text string | Raw string

definition escape_char :: "char \<Rightarrow> string" where
  "escape_char c =
     (if c = CHR ''&'' then ''&amp;''
      else if c = CHR ''<'' then ''&lt;''
      else if c = CHR ''>'' then ''&gt;''
      else if c = CHR 0x22 then ''&quot;''
      else if c = CHR 0x27 then ''&#x27;''
      else [c])"

definition escape :: "string \<Rightarrow> string" where
  "escape s = concat (map escape_char s)"

definition is_space :: "char \<Rightarrow> bool" where
  "is_space c = (c \<in> set [CHR '' '', CHR 0x09, CHR 0x0A, CHR 0x0B, CHR 0x0C, CHR 0x0D])"

definition makeElement :: "string \<Rightarrow> (string \<times> string) list \<Rightarrow> node list \<Rightarrow> error + node" where
  "makeElement tag attributes children =
     (if list_all is_space tag then Inl InvalidNodeError
      else Inr (Element tag attributes children))"

fun serialize :: "node \<Rightarrow> string" where
  "serialize (Element tag attributes children) =
     ''<'' @ tag
       @ concat (map (\<lambda>(a, v). '' '' @ a @ ''='' @ [CHR 0x22] @ escape v @ [CHR 0x22]) attributes)
       @ ''>'' @ concat (map serialize children) @ ''</'' @ tag @ ''>''"
| "serialize (Text t) = escape t"
| "serialize (Raw r) = r"

section \<open>Properties\<close>

subsection \<open>Storing into a dictionary\<close>

lemma keys_setitem:
  "map fst (dict_setitem d k v) = (if k \<in> fst ` set d then map fst d else map fst d @ [k])"
  by (induction d) (auto simp: rev_image_eqI)

lemma map_of_setitem: "map_of (dict_setitem d k v) = (map_of d)(k \<mapsto> v)"
  by (induction d) auto

lemma wf_setitem: "wf_dict d \<Longrightarrow> wf_dict (dict_setitem d k v)"
  by (simp add: wf_dict_def keys_setitem)

lemma setitem_fresh: "k \<notin> fst ` set d \<Longrightarrow> dict_setitem d k v = d @ [(k, v)]"
  by (induction d) auto

lemma setitem_twice: "dict_setitem (dict_setitem d k v) k v' = dict_setitem d k v'"
  by (induction d) auto

lemma setitem_commute:
  "k \<in> fst ` set d \<Longrightarrow> k \<noteq> k' \<Longrightarrow>
   dict_setitem (dict_setitem d k v) k' v' = dict_setitem (dict_setitem d k' v') k v"
  by (induction d) (auto simp: rev_image_eqI)

lemma wf_update: "wf_dict d \<Longrightarrow> wf_dict (dict_update d e)"
  by (induction d e rule: dict_update.induct) (auto simp: wf_setitem)

lemma update_append: "dict_update d (e @ e') = dict_update (dict_update d e) e'"
  by (induction d e rule: dict_update.induct) auto

lemma update_disjoint:
  "distinct (map fst d @ map fst e) \<Longrightarrow> dict_update d e = d @ e"
proof (induction d e rule: dict_update.induct)
  case (1 d)
  then show ?case by simp
next
  case (2 d k v e)
  have "k \<notin> fst ` set d" using 2(2) by auto
  then have s: "dict_setitem d k v = d @ [(k, v)]" by (rule setitem_fresh)
  have "distinct (map fst (d @ [(k, v)]) @ map fst e)" using 2(2) by auto
  with 2(1) s show ?case by simp
qed

lemma update_empty: "wf_dict d \<Longrightarrow> dict_update [] d = d"
  using update_disjoint [of "[]" d] by (simp add: wf_dict_def)

lemma keys_update_mono: "fst ` set d \<subseteq> fst ` set (dict_update d e)"
proof (induction d e rule: dict_update.induct)
  case (1 d)
  then show ?case by simp
next
  case (2 d k v e)
  have "fst ` set d \<subseteq> set (map fst (dict_setitem d k v))"
    by (auto simp: keys_setitem)
  with 2 show ?case by auto
qed

lemma update_setitem_old:
  "k \<in> fst ` set d \<Longrightarrow> k \<notin> fst ` set e \<Longrightarrow>
   dict_update (dict_setitem d k v) e = dict_setitem (dict_update d e) k v"
proof (induction d e rule: dict_update.induct)
  case (1 d)
  then show ?case by simp
next
  case (2 d k' v' e)
  have ne: "k \<noteq> k'" and ke: "k \<notin> fst ` set e" using 2(3) by auto
  have kin: "k \<in> fst ` set (dict_setitem d k' v')"
    using 2(2) keys_update_mono [of d "[(k', v')]"] by auto
  have "dict_update (dict_setitem d k v) ((k', v') # e)
      = dict_update (dict_setitem (dict_setitem d k' v') k v) e"
    using setitem_commute [OF 2(2) ne] by simp
  also have "\<dots> = dict_setitem (dict_update (dict_setitem d k' v') e) k v"
    using 2(1) kin ke by simp
  finally show ?case by simp
qed

lemma update_setitem_right:
  "wf_dict e \<Longrightarrow> dict_update d (dict_setitem e k v) = dict_setitem (dict_update d e) k v"
proof (induction e arbitrary: d)
  case Nil
  then show ?case by simp
next
  case (Cons p e)
  obtain k' v' where p: "p = (k', v')" by (cases p)
  have wf: "wf_dict e" and k'e: "k' \<notin> fst ` set e"
    using Cons.prems by (auto simp: wf_dict_def p)
  show ?case
  proof (cases "k' = k")
    case True
    have kin: "k \<in> fst ` set (dict_setitem d k v')"
      using arg_cong [OF keys_setitem [of d k v'], of set] by (auto split: if_splits)
    have "dict_update d (dict_setitem (p # e) k v) = dict_update (dict_setitem d k v) e"
      using True p by simp
    also have "\<dots> = dict_update (dict_setitem (dict_setitem d k v') k v) e"
      by (simp add: setitem_twice)
    also have "\<dots> = dict_setitem (dict_update (dict_setitem d k v') e) k v"
      using update_setitem_old [OF kin] k'e True by simp
    finally show ?thesis using True p by simp
  next
    case False
    then show ?thesis using Cons.IH [OF wf] p by simp
  qed
qed

lemma update_normal: "dict_update d (dict_update [] e) = dict_update d e"
proof (induction e rule: rev_induct)
  case Nil
  then show ?case by simp
next
  case (snoc p e)
  obtain k v where p: "p = (k, v)" by (cases p)
  have wf: "wf_dict (dict_update [] e)" by (rule wf_update) (simp add: wf_dict_def)
  have "dict_update d (dict_update [] (e @ [p])) = dict_update d (dict_setitem (dict_update [] e) k v)"
    by (simp add: update_append p)
  also have "\<dots> = dict_setitem (dict_update d (dict_update [] e)) k v"
    by (rule update_setitem_right [OF wf])
  also have "\<dots> = dict_update d (e @ [p])"
    by (simp add: snoc update_append p)
  finally show ?case .
qed

lemma merge_loop_concat: "merge_loop r ds = dict_update r (concat ds)"
  by (induction r ds rule: merge_loop.induct) (auto simp: update_append)


subsection \<open>Joining strings\<close>

lemma str_join_terminated:
  "xs \<noteq> [] \<Longrightarrow> str_join (t @ s) xs @ t = str_join s (map (\<lambda>x. x @ t) xs)"
  by (induction "t @ s" xs rule: str_join.induct) auto

lemma to_css_loop_blocks:
  "to_css_loop css_lines items =
     css_lines @ map (\<lambda>(name, styles). css_block name (dict_to_style styles)) items"
  by (induction css_lines items rule: to_css_loop.induct)
     (auto simp: css_block_def dict_to_style_def)

subsection \<open>Keys and values after a merge\<close>

lemma map_of_update:
  "wf_dict e \<Longrightarrow> map_of (dict_update d e) = map_of d ++ map_of e"
proof (induction d e rule: dict_update.induct)
  case (1 d)
  then show ?case by simp
next
  case (2 d k v e)
  have wf: "wf_dict e" and k: "k \<notin> dom (map_of e)"
    using 2(2) by (auto simp: wf_dict_def dom_map_of_conv_image_fst)
  have "map_of (dict_update d ((k, v) # e)) = map_of (dict_setitem d k v) ++ map_of e"
    using 2(1) [OF wf] by simp
  also have "\<dots> = (map_of d)(k \<mapsto> v) ++ map_of e"
    by (simp only: map_of_setitem)
  also have "\<dots> = map_of d ++ (map_of e)(k \<mapsto> v)"
    using k by (simp add: map_add_upd_left)
  finally show ?case by (simp only: map_of.simps fst_conv snd_conv)
qed

lemma keys_update_snoc:
  "map fst (dict_update d (e @ [(k, v)])) =
     (if k \<in> fst ` set (dict_update d e) then map fst (dict_update d e)
      else map fst (dict_update d e) @ [k])"
  by (simp add: update_append keys_setitem)

lemma set_keys_update: "fst ` set (dict_update d e) = fst ` set d \<union> fst ` set e"
proof (induction d e rule: dict_update.induct)
  case (1 d)
  then show ?case by simp
next
  case (2 d k v e)
  have "fst ` set (dict_setitem d k v) = insert k (fst ` set d)"
    using arg_cong [OF keys_setitem [of d k v], of set] by (auto split: if_splits)
  with 2 show ?case by auto
qed

lemma keys_update_empty: "map fst (dict_update [] e) = first_occurrences (map fst e)"
proof (induction e rule: rev_induct)
  case Nil
  then show ?case by (simp add: first_occurrences_def)
next
  case (snoc p e)
  obtain k v where p: "p = (k, v)" by (cases p)
  show ?case
    using snoc keys_update_snoc [of "[]" e k v]
    by (simp add: p first_occurrences_def set_keys_update)
qed

lemma rightmost_with_Nil: "rightmost_with k [] = None"
  by (simp add: rightmost_with_def)

lemma rightmost_with_snoc:
  "rightmost_with k (ds @ [d]) = (if k \<in> fst ` set d then Some d else rightmost_with k ds)"
  by (simp add: rightmost_with_def)

lemma map_of_merge_loop:
  "\<forall>d\<in>set ds. wf_dict d \<Longrightarrow>
   map_of (merge_loop r ds) k =
     (case rightmost_with k ds of None \<Rightarrow> map_of r k | Some d \<Rightarrow> map_of d k)"
proof (induction ds arbitrary: r rule: rev_induct)
  case Nil
  then show ?case by (simp add: rightmost_with_Nil)
next
  case (snoc d ds)
  have wf: "wf_dict d" and wfs: "\<forall>d\<in>set ds. wf_dict d" using snoc.prems by auto
  have "merge_loop r (ds @ [d]) = dict_update (merge_loop r ds) d"
    by (simp add: merge_loop_concat update_append)
  then have "map_of (merge_loop r (ds @ [d])) k = (map_of (merge_loop r ds) ++ map_of d) k"
    by (simp add: map_of_update [OF wf])
  also have "\<dots> = (case rightmost_with k (ds @ [d]) of None \<Rightarrow> map_of r k | Some d \<Rightarrow> map_of d k)"
  proof (cases "k \<in> fst ` set d")
    case True
    then obtain v where "map_of d k = Some v"
      by (metis domD dom_map_of_conv_image_fst)
    then show ?thesis using True by (simp add: rightmost_with_snoc map_add_def)
  next
    case False
    then have "map_of d k = None"
      by (simp add: map_of_eq_None_iff)
    then show ?thesis using False snoc.IH [OF wfs] by (simp add: rightmost_with_snoc map_add_def)
  qed
  finally show ?case .
qed

subsection \<open>The heap version of the merge\<close>

lemma merge_loop_ref_objs:
  "result \<notin> set ds \<Longrightarrow>
   merge_loop_ref result ds h =
     h\<lparr>objs := (objs h)(result := merge_loop (objs h result) (map (objs h) ds))\<rparr>"
proof (induction ds arbitrary: h)
  case Nil
  then show ?case by simp
next
  case (Cons d ds)
  let ?h = "h\<lparr>objs := (objs h)(result := dict_update (objs h result) (objs h d))\<rparr>"
  have nin: "result \<notin> set ds" and ne: "d \<noteq> result" using Cons.prems by auto
  have same: "map (objs ?h) ds = map (objs h) ds" using nin by auto
  have at: "objs ?h result = dict_update (objs h result) (objs h d)" by simp
  have "merge_loop_ref result (d # ds) h = merge_loop_ref result ds ?h" by simp
  also have "\<dots> = ?h\<lparr>objs := (objs ?h)(result := merge_loop (objs ?h result) (map (objs ?h) ds))\<rparr>"
    by (rule Cons.IH [OF nin])
  also have "\<dots> = h\<lparr>objs := (objs h)(result := merge_loop (objs h result) (map (objs h) (d # ds)))\<rparr>"
    unfolding same at by simp
  finally show ?case .
qed

subsection \<open>The generator\<close>

lemma filter_setitem:
  "wf_dict d \<Longrightarrow> filter (\<lambda>e. fst e = k) (dict_setitem d k v) = [(k, v)]"
proof (induction d)
  case Nil
  then show ?case by simp
next
  case (Cons p d)
  obtain k' v' where p: "p = (k', v')" by (cases p)
  have wf: "wf_dict d" and k': "k' \<notin> fst ` set d" using Cons.prems by (auto simp: wf_dict_def p)
  show ?case
  proof (cases "k' = k")
    case True
    have "filter (\<lambda>e. fst e = k) d = []" using k' True by (auto simp: filter_empty_conv)
    then show ?thesis using True p by simp
  next
    case False
    then show ?thesis using Cons.IH [OF wf] p by simp
  qed
qed

lemma add_class_chain_classes:
  "list_all (\<lambda>c. styles_bind (snd c)) calls \<Longrightarrow>
   \<exists>h'. add_class_chain self calls h = Inr (self, h') \<and>
        classes (objs h' self) = dict_update (classes (objs h self)) calls \<and>
        (\<forall>r. r \<noteq> self \<longrightarrow> objs h' r = objs h r) \<and> next_ref h' = next_ref h"
proof (induction calls arbitrary: h)
  case Nil
  then show ?case by simp
next
  case (Cons c calls)
  obtain name styles where c: "c = (name, styles)" by (cases c)
  have ok: "styles_bind styles" and rest: "list_all (\<lambda>c. styles_bind (snd c)) calls"
    using Cons.prems by (auto simp: c)
  let ?h = "h\<lparr>objs := (objs h)(self :=
            (objs h self)\<lparr>classes := dict_setitem (classes (objs h self)) name styles\<rparr>)\<rparr>"
  from Cons.IH [OF rest, of ?h] show ?case by (auto simp: c add_class_def ok)
qed

lemma set_setitem: "set (dict_setitem d k v) \<subseteq> insert (k, v) (set d)"
  by (induction d) (auto split: if_splits)

lemma set_update: "set (dict_update d e) \<subseteq> set d \<union> set e"
proof (induction d e rule: dict_update.induct)
  case (1 d)
  then show ?case by simp
next
  case (2 d k v e)
  then show ?case using set_setitem [of d k v] by auto
qed

lemma dict_to_style_cases:
  "dict_to_style d = (if d = [] then '';'' else inline_shape d)"
proof (cases "d = []")
  case True
  then show ?thesis by (simp add: dict_to_style_def)
next
  case False
  let ?item = "\<lambda>(key, value). key @ '': '' @ value"
  have ne: "map ?item d \<noteq> []" using False by simp
  have a: "dict_to_style d = str_join ('';'' @ '' '') (map ?item d) @ '';''"
    by (simp add: dict_to_style_def)
  have b: "str_join ('';'' @ '' '') (map ?item d) @ '';''
           = str_join '' '' (map (\<lambda>x. x @ '';'') (map ?item d))"
    using ne by (rule str_join_terminated)
  have c: "map (\<lambda>x. x @ '';'') (map ?item d)
           = map (\<lambda>(prop, val). prop @ '': '' @ val @ '';'') d"
    by (induction d) auto
  have "dict_to_style d = inline_shape d" unfolding inline_shape_def a b c by (rule refl)
  then show ?thesis using False by simp
qed

lemma to_css_cases:
  "to_css self h = str_join [CHR 0x0A]
     (map (\<lambda>(name, styles). css_block name (if styles = [] then '';'' else inline_shape styles))
        (classes (objs h self)))"
  by (simp add: to_css_def to_css_loop_blocks dict_to_style_cases)

lemma stylesheet_shape_nonempty:
  "list_all (\<lambda>c. snd c \<noteq> []) rules \<Longrightarrow>
   map (\<lambda>(name, styles). css_block name (if styles = [] then '';'' else inline_shape styles)) rules
     = map (\<lambda>(name, styles). css_block name (inline_shape styles)) rules"
  by (induction rules) auto

subsection \<open>Claims\<close>

text \<open>
  C1 (as stated): the empty style declaration serializes to the empty string. It does
  not: the join of no items is empty, and the final \<^verbatim>\<open>+ ";"\<close> is appended all the same.
\<close>

theorem dict_to_style_empty_not_blank: "dict_to_style [] \<noteq> ''''"
  by (simp add: dict_to_style_def)

text \<open>
  C1 (amended): for the empty style declaration \<^verbatim>\<open>dict_to_style\<close> returns the
  one-character string \<^verbatim>\<open>;\<close>.
\<close>

theorem dict_to_style_empty_semicolon: "dict_to_style [] = '';''"
  by (simp add: dict_to_style_def)

text \<open>
  C8: for every non-empty style declaration \<^verbatim>\<open>dict_to_style\<close> produces
  \<^verbatim>\<open>prop: value; prop2: value2;\<close>: the properties in insertion order, a semicolon after
  each of them, the last included, and one space between consecutive properties.
\<close>

theorem dict_to_style_shape:
  "style_dict \<noteq> [] \<Longrightarrow> dict_to_style style_dict = inline_shape style_dict"
proof -
  assume ne: "style_dict \<noteq> []"
  let ?item = "\<lambda>(key, value). key @ '': '' @ value"
  have ne': "map ?item style_dict \<noteq> []" using ne by simp
  have a: "dict_to_style style_dict = str_join ('';'' @ '' '') (map ?item style_dict) @ '';''"
    by (simp add: dict_to_style_def)
  have b: "str_join ('';'' @ '' '') (map ?item style_dict) @ '';''
           = str_join '' '' (map (\<lambda>x. x @ '';'') (map ?item style_dict))"
    using ne' by (rule str_join_terminated)
  have c: "map (\<lambda>x. x @ '';'') (map ?item style_dict)
           = map (\<lambda>(prop, val). prop @ '': '' @ val @ '';'') style_dict"
    by (induction style_dict) auto
  show ?thesis unfolding inline_shape_def a b c by (rule refl)
qed

theorem dict_to_style_shape_witness:
  "[(''color'', ''red''), (''font-size'', ''16px'')] \<noteq> [] \<and>
   dict_to_style [(''color'', ''red''), (''font-size'', ''16px'')] = ''color: red; font-size: 16px;''"
  using dict_to_style_shape [of "[(''color'', ''red''), (''font-size'', ''16px'')]"]
  by (simp add: inline_shape_def)

text \<open>
  C4: \<^verbatim>\<open>merge_styles\<close> of no dictionary is the empty dictionary. For dictionaries without
  repeated keys the result has no repeated key, its keys are the keys of the arguments
  in argument order (each at its first occurrence), and a key is bound to the value it
  has in the rightmost argument that contains it; a key of no argument is unbound.
\<close>

theorem merge_styles_rightmost_wins:
  assumes "\<forall>d\<in>set style_dicts. wf_dict d"
  shows "merge_styles [] = ([] :: ('k, 'v) py_dict)
    \<and> wf_dict (merge_styles style_dicts)
    \<and> map fst (merge_styles style_dicts) = first_occurrences (concat (map (map fst) style_dicts))
    \<and> map_of (merge_styles style_dicts) k =
        (case rightmost_with k style_dicts of None \<Rightarrow> None | Some (d :: ('k, 'v) py_dict) \<Rightarrow> map_of d k)"
proof -
  have wf: "wf_dict (merge_styles style_dicts)"
    unfolding merge_styles_def merge_loop_concat by (rule wf_update) (simp add: wf_dict_def)
  have keys: "map fst (merge_styles style_dicts) = first_occurrences (concat (map (map fst) style_dicts))"
    by (simp add: merge_styles_def merge_loop_concat keys_update_empty map_concat)
  have vals: "map_of (merge_styles style_dicts) k =
        (case rightmost_with k style_dicts of None \<Rightarrow> None | Some d \<Rightarrow> map_of d k)"
    using map_of_merge_loop [OF assms, of "[]" k]
    by (simp add: merge_styles_def cong: option.case_cong)
  show ?thesis using wf keys vals by (simp add: merge_styles_def)
qed

theorem merge_styles_rightmost_wins_witness:
  "wf_dict [(''color'', ''red''), (''margin'', ''0'')] \<and> wf_dict [(''padding'', ''1px'')]
   \<and> wf_dict [(''color'', ''blue'')]
   \<and> map fst (merge_styles [[(''color'', ''red''), (''margin'', ''0'')], [(''padding'', ''1px'')], [(''color'', ''blue'')]])
       = [''color'', ''margin'', ''padding'']
   \<and> map_of (merge_styles [[(''color'', ''red''), (''margin'', ''0'')], [(''padding'', ''1px'')], [(''color'', ''blue'')]]) ''color''
       = Some ''blue''"
  using merge_styles_rightmost_wins
    [of "[[(''color'', ''red''), (''margin'', ''0'')], [(''padding'', ''1px'')], [(''color'', ''blue'')]]" "''color''"]
  by (simp add: wf_dict_def first_occurrences_def rightmost_with_def)

text \<open>
  C5: merging is associative, key order included: merging \<open>A\<close> and \<open>B\<close> and then the
  result with \<open>C\<close>, merging \<open>A\<close> with the merge of \<open>B\<close> and \<open>C\<close>, and merging the three
  at once give the same dictionary, whatever keys the three share.
\<close>

theorem merge_styles_associative:
  "merge_styles [merge_styles [A, B], C] = merge_styles [A, B, C] \<and>
   merge_styles [A, merge_styles [B, C]] = merge_styles [A, B, C]"
proof -
  have wf: "wf_dict (dict_update (dict_update [] A) B)"
    by (intro wf_update) (simp add: wf_dict_def)
  have 1: "merge_styles [merge_styles [A, B], C] = merge_styles [A, B, C]"
    by (simp add: merge_styles_def update_empty [OF wf] update_append)
  have 2: "merge_styles [A, merge_styles [B, C]] = merge_styles [A, B, C]"
    by (simp add: merge_styles_def update_normal update_append [symmetric])
  show ?thesis using 1 2 by simp
qed

text \<open>
  C9: \<^verbatim>\<open>merge_styles\<close> never mutates its arguments. Called on references to existing
  dictionaries, it returns a reference that was not in use before the call (so it is
  none of the arguments), every argument holds after the call what it held before,
  no other existing object changes either, and the new object holds the merge of the
  arguments' contents.
\<close>

theorem merge_styles_ref_leaves_inputs:
  assumes "\<forall>d\<in>set style_dicts. d < next_ref h"
  shows "\<exists>result h'. merge_styles_ref style_dicts h = (result, h')
    \<and> result = next_ref h \<and> result \<notin> set style_dicts
    \<and> next_ref h' = Suc (next_ref h)
    \<and> (\<forall>d\<in>set style_dicts. objs h' d = objs h d)
    \<and> (\<forall>r. r \<noteq> result \<longrightarrow> objs h' r = objs h r)
    \<and> objs h' result = merge_styles (map (objs h) style_dicts)"
proof -
  let ?res = "next_ref h"
  let ?h0 = "\<lparr>objs = (objs h)(?res := []), next_ref = Suc ?res\<rparr>"
  have nin: "?res \<notin> set style_dicts" using assms by auto
  have same: "map (objs ?h0) style_dicts = map (objs h) style_dicts" using nin by auto
  have run: "merge_styles_ref style_dicts h = (?res, merge_loop_ref ?res style_dicts ?h0)"
    by (simp add: merge_styles_ref_def alloc_def)
  have loop: "merge_loop_ref ?res style_dicts ?h0 =
      ?h0\<lparr>objs := (objs ?h0)(?res := merge_loop (objs ?h0 ?res) (map (objs ?h0) style_dicts))\<rparr>"
    by (rule merge_loop_ref_objs [OF nin])
  have at: "objs ?h0 ?res = []" by simp
  show ?thesis
    unfolding run loop same at using nin by (auto simp: merge_styles_def)
qed

text \<open>
  The same dictionary passed twice: it is still \<^verbatim>\<open>{'color': 'red'}\<close> afterwards, and the
  result is a new object.
\<close>

theorem merge_styles_ref_leaves_inputs_witness:
  "0 < next_ref \<lparr>objs = (\<lambda>r. [(''color'', ''red'')]), next_ref = 1\<rparr>
   \<and> (\<exists>result h'. merge_styles_ref [0, 0] \<lparr>objs = (\<lambda>r. [(''color'', ''red'')]), next_ref = 1\<rparr> = (result, h')
        \<and> result = 1 \<and> objs h' 0 = [(''color'', ''red'')] \<and> objs h' result = [(''color'', ''red'')])"
  using merge_styles_ref_leaves_inputs [of "[0, 0]" "\<lparr>objs = (\<lambda>r. [(''color'', ''red'')]), next_ref = 1\<rparr>"]
  by (auto simp: merge_styles_def)

text \<open>
  C10 (as stated): for every name and style declaration \<^verbatim>\<open>add_class\<close> returns the
  generator it was called on. Not for every declaration: with a property called
  \<^verbatim>\<open>name\<close>, as in \<^verbatim>\<open>css_gen.add_class('x', **{'name': 'y'})\<close>, the call raises
  \<^verbatim>\<open>TypeError\<close> and returns nothing.
\<close>

theorem add_class_name_keyword_fails:
  "add_class 0 ''x'' [(''name'', ''y'')] fresh_generator_heap = Inl TypeError"
  by (simp add: add_class_def styles_bind_def)

text \<open>
  C10 (amended): for every name and every style declaration with no property called
  \<^verbatim>\<open>self\<close> or \<^verbatim>\<open>name\<close>, \<^verbatim>\<open>add_class\<close> returns the reference it was called on, after
  storing the declaration under the name; so a chain of such calls, each made on the
  result of the one before, runs on the one receiver, ends with the receiver and has
  registered every call in turn.
\<close>

theorem add_class_returns_self:
  assumes "styles_bind styles" and "list_all (\<lambda>c. styles_bind (snd c)) calls"
  shows "(\<exists>h'. add_class self name styles h = Inr (self, h')
         \<and> classes (objs h' self) = dict_setitem (classes (objs h self)) name styles)
   \<and> (\<exists>h'. add_class_chain self calls h = Inr (self, h')
         \<and> classes (objs h' self) = dict_update (classes (objs h self)) calls)"
proof -
  have one: "\<exists>h'. add_class self name styles h = Inr (self, h')
         \<and> classes (objs h' self) = dict_setitem (classes (objs h self)) name styles"
    using assms(1) by (simp add: add_class_def)
  have many: "\<exists>h'. add_class_chain self calls h = Inr (self, h')
         \<and> classes (objs h' self) = dict_update (classes (objs h self)) calls"
    using add_class_chain_classes [OF assms(2), of self h] by blast
  show ?thesis using one many by (rule conjI)
qed

text \<open>
  One call, and a chain of two calls, on a new generator.
\<close>

theorem add_class_returns_self_witness:
  "styles_bind [(''display'', ''flex'')]
   \<and> list_all (\<lambda>c. styles_bind (snd c))
        [(''flex'', [(''display'', ''flex'')]), (''gap-4'', [(''gap'', ''16px'')])]
   \<and> (\<exists>h'. add_class 0 ''flex'' [(''display'', ''flex'')] fresh_generator_heap = Inr (0, h')
         \<and> classes (objs h' 0) = [(''flex'', [(''display'', ''flex'')])])
   \<and> (\<exists>h'. add_class_chain 0
               [(''flex'', [(''display'', ''flex'')]), (''gap-4'', [(''gap'', ''16px'')])]
               fresh_generator_heap = Inr (0, h')
         \<and> classes (objs h' 0)
             = [(''flex'', [(''display'', ''flex'')]), (''gap-4'', [(''gap'', ''16px'')])])"
proof -
  let ?styles = "[(''display'', ''flex'')]"
  let ?calls = "[(''flex'', [(''display'', ''flex'')]), (''gap-4'', [(''gap'', ''16px'')])]"
  have e: "classes (objs fresh_generator_heap 0) = []"
    by (simp add: fresh_generator_heap_def CSSGenerator_def alloc_def empty_heap_def)
  have ok: "styles_bind ?styles" by (simp add: styles_bind_def)
  have oks: "list_all (\<lambda>c. styles_bind (snd c)) ?calls" by (simp add: styles_bind_def)
  show ?thesis
    using ok oks add_class_returns_self [OF ok oks, of 0 "''flex''" fresh_generator_heap]
    by (simp add: e)
qed

text \<open>
  C2 (as stated): \<^verbatim>\<open>add_class\<close> with an empty name fails with InvalidClassNameError. It
  does not: on a new generator the call with the name \<^verbatim>\<open>""\<close> returns normally and the
  rule set is registered under the empty name.
\<close>

theorem add_class_empty_name_accepted:
  "add_class 0 '''' [(''color'', ''red'')] fresh_generator_heap \<noteq> Inl InvalidClassNameError
   \<and> \<not> isl (add_class 0 '''' [(''color'', ''red'')] fresh_generator_heap)
   \<and> classes (objs (snd (projr (add_class 0 '''' [(''color'', ''red'')] fresh_generator_heap))) 0)
       = [('''', [(''color'', ''red'')])]"
  by (simp add: add_class_def styles_bind_def fresh_generator_heap_def CSSGenerator_def
        alloc_def empty_heap_def)

text \<open>
  C2 (amended): \<^verbatim>\<open>add_class\<close> does not validate the name and never fails with
  InvalidClassNameError. For every name, the empty one included, and every style
  declaration with no property called \<^verbatim>\<open>self\<close> or \<^verbatim>\<open>name\<close>, the call succeeds, returns
  the receiver and leaves the declaration registered under that name. With such a
  property the call raises \<^verbatim>\<open>TypeError\<close>, whatever the name.
\<close>

theorem add_class_any_name:
  "add_class self name styles h \<noteq> Inl InvalidClassNameError
   \<and> (styles_bind styles \<longrightarrow>
        (\<exists>h'. add_class self name styles h = Inr (self, h')
              \<and> map_of (classes (objs h' self)) name = Some styles))
   \<and> (\<not> styles_bind styles \<longrightarrow> add_class self name styles h = Inl TypeError)"
  by (simp add: add_class_def map_of_setitem)

text \<open>
  The empty name and a named class on a new generator, and a declaration with a
  property called \<^verbatim>\<open>self\<close>.
\<close>

theorem add_class_any_name_witness:
  "styles_bind [(''padding'', ''4px'')]
   \<and> (\<exists>h'. add_class 0 '''' [(''padding'', ''4px'')] fresh_generator_heap = Inr (0, h')
         \<and> map_of (classes (objs h' 0)) '''' = Some [(''padding'', ''4px'')])
   \<and> (\<exists>h'. add_class 0 ''p-1'' [(''padding'', ''4px'')] fresh_generator_heap = Inr (0, h')
         \<and> map_of (classes (objs h' 0)) ''p-1'' = Some [(''padding'', ''4px'')])
   \<and> \<not> styles_bind [(''self'', ''x'')]
   \<and> add_class 0 ''p-1'' [(''self'', ''x'')] fresh_generator_heap = Inl TypeError"
proof -
  have ok: "styles_bind [(''padding'', ''4px'')]" by (simp add: styles_bind_def)
  have no: "\<not> styles_bind [(''self'', ''x'')]" by (simp add: styles_bind_def)
  show ?thesis
    using ok no
      add_class_any_name [of 0 "''''" "[(''padding'', ''4px'')]" fresh_generator_heap]
      add_class_any_name [of 0 "''p-1''" "[(''padding'', ''4px'')]" fresh_generator_heap]
      add_class_any_name [of 0 "''p-1''" "[(''self'', ''x'')]" fresh_generator_heap]
    by blast
qed

text \<open>
  C6 (as stated): \<^verbatim>\<open>to_css\<close> gives every registered rule set as a block
  \<^verbatim>\<open>.name { prop: value; ... }\<close>. Not a rule set without properties: after
  \<^verbatim>\<open>add_class('empty')\<close> on a new generator the stylesheet is \<^verbatim>\<open>.empty { ; }\<close>, a block
  with a semicolon and no property, which is not the block of the inline form.
\<close>

theorem to_css_empty_rule_set:
  "to_css 0 (snd (projr (add_class 0 ''empty'' [] fresh_generator_heap))) = ''.empty { ; }''
   \<and> to_css 0 (snd (projr (add_class 0 ''empty'' [] fresh_generator_heap)))
       \<noteq> stylesheet_shape
            (classes (objs (snd (projr (add_class 0 ''empty'' [] fresh_generator_heap))) 0))"
  by (simp add: to_css_def add_class_def styles_bind_def fresh_generator_heap_def
        CSSGenerator_def alloc_def empty_heap_def stylesheet_shape_def css_block_def
        inline_shape_def)

text \<open>
  C6 (amended): after any sequence of registrations on a generator that had no class,
  \<^verbatim>\<open>to_css\<close> is the blocks of the registered rule sets joined by newlines, in registration
  order: the names are those of the calls, each at its first registration, and when no
  name is registered twice the rule sets are exactly the calls in order. The block of a
  rule set with at least one property is \<^verbatim>\<open>.name { prop: value; ... }\<close>, the properties in
  insertion order with a semicolon after each; the block of a rule set with no
  property is \<^verbatim>\<open>.name { ; }\<close>. So when every registered declaration has a property, the
  stylesheet is the one the specification describes.
\<close>

theorem to_css_registration_order:
  assumes "classes (objs h self) = []" and "list_all (\<lambda>c. styles_bind (snd c)) calls"
  shows "\<exists>h'. add_class_chain self calls h = Inr (self, h')
          \<and> map fst (classes (objs h' self)) = first_occurrences (map fst calls)
          \<and> (distinct (map fst calls) \<longrightarrow> classes (objs h' self) = calls)
          \<and> to_css self h' = str_join [CHR 0x0A]
               (map (\<lambda>(name, styles).
                       css_block name (if styles = [] then '';'' else inline_shape styles))
                  (classes (objs h' self)))
          \<and> (list_all (\<lambda>c. snd c \<noteq> []) calls \<longrightarrow>
                to_css self h' = stylesheet_shape (classes (objs h' self)))"
proof -
  obtain h' where run: "add_class_chain self calls h = Inr (self, h')"
    and cl: "classes (objs h' self) = dict_update (classes (objs h self)) calls"
    using add_class_chain_classes [OF assms(2), of self h] by blast
  have cl': "classes (objs h' self) = dict_update [] calls" using cl assms(1) by simp
  have keys: "map fst (classes (objs h' self)) = first_occurrences (map fst calls)"
    unfolding cl' by (rule keys_update_empty)
  have same: "distinct (map fst calls) \<longrightarrow> classes (objs h' self) = calls"
    unfolding cl' by (simp add: update_empty wf_dict_def)
  have css: "to_css self h' = str_join [CHR 0x0A]
               (map (\<lambda>(name, styles).
                       css_block name (if styles = [] then '';'' else inline_shape styles))
                  (classes (objs h' self)))"
    by (rule to_css_cases)
  have full: "list_all (\<lambda>c. snd c \<noteq> []) calls \<longrightarrow>
                to_css self h' = stylesheet_shape (classes (objs h' self))"
  proof
    assume ne: "list_all (\<lambda>c. snd c \<noteq> []) calls"
    have "set (classes (objs h' self)) \<subseteq> set calls"
      unfolding cl' using set_update [of "[]" calls] by simp
    then have "list_all (\<lambda>c. snd c \<noteq> []) (classes (objs h' self))"
      using ne by (auto simp: list_all_iff)
    then show "to_css self h' = stylesheet_shape (classes (objs h' self))"
      unfolding css stylesheet_shape_def by (simp only: stylesheet_shape_nonempty)
  qed
  show ?thesis using run keys same css full by blast
qed

text \<open>Two registrations on a new generator.\<close>

theorem to_css_registration_order_witness:
  "classes (objs fresh_generator_heap 0) = []
   \<and> list_all (\<lambda>c. styles_bind (snd c)) [(''btn'', [(''padding'', ''10px''), (''border'', ''none'')]), (''card'', [(''background'', ''white'')])]
   \<and> distinct (map fst [(''btn'', [(''padding'', ''10px''), (''border'', ''none'')]), (''card'', [(''background'', ''white'')])])
   \<and> list_all (\<lambda>c. snd c \<noteq> []) [(''btn'', [(''padding'', ''10px''), (''border'', ''none'')]), (''card'', [(''background'', ''white'')])]
   \<and> (\<exists>h'. add_class_chain 0 [(''btn'', [(''padding'', ''10px''), (''border'', ''none'')]), (''card'', [(''background'', ''white'')])] fresh_generator_heap = Inr (0, h')
         \<and> to_css 0 h' = stylesheet_shape (classes (objs h' 0))
         \<and> to_css 0 h' = ''.btn { padding: 10px; border: none; }'' @ [CHR 0x0A] @ ''.card { background: white; }'')"
proof -
  let ?calls = "[(''btn'', [(''padding'', ''10px''), (''border'', ''none'')]), (''card'', [(''background'', ''white'')])]"
  have e: "classes (objs fresh_generator_heap 0) = []"
    by (simp add: fresh_generator_heap_def CSSGenerator_def alloc_def empty_heap_def)
  have oks: "list_all (\<lambda>c. styles_bind (snd c)) ?calls" by (simp add: styles_bind_def)
  have d: "distinct (map fst ?calls)" by simp
  have ne: "list_all (\<lambda>c. snd c \<noteq> []) ?calls" by simp
  obtain h' where run: "add_class_chain 0 ?calls fresh_generator_heap = Inr (0, h')"
    and same: "distinct (map fst ?calls) \<longrightarrow> classes (objs h' 0) = ?calls"
    and full: "list_all (\<lambda>c. snd c \<noteq> []) ?calls \<longrightarrow>
                to_css 0 h' = stylesheet_shape (classes (objs h' 0))"
    using to_css_registration_order [OF e oks] by blast
  have cl: "classes (objs h' 0) = ?calls" using same d by blast
  have shape: "to_css 0 h' = stylesheet_shape (classes (objs h' 0))" using full ne by blast
  have "to_css 0 h' = ''.btn { padding: 10px; border: none; }'' @ [CHR 0x0A] @ ''.card { background: white; }''"
    unfolding shape cl by (simp add: stylesheet_shape_def css_block_def inline_shape_def)
  with run e oks d ne shape show ?thesis by blast
qed

text \<open>
  C7: registering a name again overwrites its rule set silently. After
  \<^verbatim>\<open>add_class(x, **D1)\<close> and \<^verbatim>\<open>add_class(x, **D2)\<close>, two calls that Python accepts, the
  generator holds exactly one rule set named \<open>x\<close>, it is \<open>D2\<close>, the stylesheet has one
  block per rule set held, and the generator is the one a single \<^verbatim>\<open>add_class(x, **D2)\<close>
  would have left: nothing of \<open>D1\<close> remains.
\<close>

theorem add_class_overwrites:
  assumes "wf_dict (classes (objs h self))" and "styles_bind D1" and "styles_bind D2"
  shows "\<exists>h1 h2. add_class self x D1 h = Inr (self, h1) \<and> add_class self x D2 h1 = Inr (self, h2)
    \<and> filter (\<lambda>e. fst e = x) (classes (objs h2 self)) = [(x, D2)]
    \<and> to_css self h2 = str_join [CHR 0x0A]
         (map (\<lambda>(name, styles). css_block name (dict_to_style styles)) (classes (objs h2 self)))
    \<and> add_class self x D2 h = Inr (self, h2)"
  using assms(2,3)
  by (simp add: add_class_def setitem_twice filter_setitem [OF assms(1)] to_css_def
        to_css_loop_blocks)

text \<open>On a new generator, with \<^verbatim>\<open>color: red\<close> replaced by two properties.\<close>

theorem add_class_overwrites_witness:
  "wf_dict (classes (objs fresh_generator_heap 0))
   \<and> styles_bind [(''color'', ''red'')] \<and> styles_bind [(''color'', ''blue''), (''margin'', ''0'')]
   \<and> (\<exists>h1 h2. add_class 0 ''x'' [(''color'', ''red'')] fresh_generator_heap = Inr (0, h1)
        \<and> add_class 0 ''x'' [(''color'', ''blue''), (''margin'', ''0'')] h1 = Inr (0, h2)
        \<and> classes (objs h2 0) = [(''x'', [(''color'', ''blue''), (''margin'', ''0'')])]
        \<and> to_css 0 h2 = ''.x { color: blue; margin: 0; }'')"
proof -
  let ?D1 = "[(''color'', ''red'')]"
  let ?D2 = "[(''color'', ''blue''), (''margin'', ''0'')]"
  have wf: "wf_dict (classes (objs fresh_generator_heap 0))"
    by (simp add: fresh_generator_heap_def CSSGenerator_def alloc_def empty_heap_def wf_dict_def)
  have ok1: "styles_bind ?D1" and ok2: "styles_bind ?D2" by (simp_all add: styles_bind_def)
  obtain h1 h2 where first: "add_class 0 ''x'' ?D1 fresh_generator_heap = Inr (0, h1)"
    and second: "add_class 0 ''x'' ?D2 h1 = Inr (0, h2)"
    and css: "to_css 0 h2 = str_join [CHR 0x0A]
         (map (\<lambda>(name, styles). css_block name (dict_to_style styles)) (classes (objs h2 0)))"
    and single: "add_class 0 ''x'' ?D2 fresh_generator_heap = Inr (0, h2)"
    using add_class_overwrites [OF wf ok1 ok2, of "''x''"] by blast
  have cl: "classes (objs h2 0) = [(''x'', ?D2)]"
    using single ok2
    by (auto simp: add_class_def fresh_generator_heap_def CSSGenerator_def alloc_def empty_heap_def)
  have "to_css 0 h2 = ''.x { color: blue; margin: 0; }''"
    unfolding css cl by (simp add: css_block_def dict_to_style_def)
  with wf ok1 ok2 first second cl show ?thesis by blast
qed

text \<open>
  C3: the end-to-end example. The element \<^verbatim>\<open>p\<close> whose \<^verbatim>\<open>style\<close> attribute is
  \<^verbatim>\<open>dict_to_style\<close> of \<^verbatim>\<open>{'color': 'red', 'font-size': '16px'}\<close> and whose only child is
  the text \<^verbatim>\<open>Hi & bye\<close> is built without error and serializes to
  \<^verbatim>\<open><p style="color: red; font-size: 16px;">Hi &amp; bye</p>\<close>.
\<close>

theorem end_to_end_example:
  "map_sum id serialize
     (makeElement ''p''
        [(''style'', dict_to_style [(''color'', ''red''), (''font-size'', ''16px'')])]
        [Text ''Hi & bye''])
   = Inr (''<p style='' @ [CHR 0x22] @ ''color: red; font-size: 16px;'' @ [CHR 0x22]
          @ ''>Hi &amp; bye</p>'')"
  by (simp add: makeElement_def is_space_def dict_to_style_def escape_def escape_char_def)

end
